theory Spec2Isabelle
  imports Main "HOL-Library.Char_ord" "HOL-Library.List_Lexorder"
begin

section \<open>The flashcard store and study session of quzi.py\<close>

text \<open>
  The program keeps decks and cards in two SQLite tables and drives a study window by a
  queue of cards. The embedding below follows \<^verbatim>\<open>src/quzi.py\<close>:
  \<^item> a table is the list of its rows in storage order. Both tables are rowid tables
    (\<^verbatim>\<open>id INTEGER PRIMARY KEY\<close>) without any further index, so SQLite keeps them as
    a B-tree keyed by \<^verbatim>\<open>id\<close> and answers a \<^verbatim>\<open>SELECT\<close> without
    \<^verbatim>\<open>ORDER BY\<close> by walking that tree: the model reads the list front to back;
  \<^item> the connection is opened without \<^verbatim>\<open>PRAGMA foreign_keys = ON\<close>, so the
    \<^verbatim>\<open>FOREIGN KEY\<close> clause of the schema is parsed but not enforced (SQLite's default);
  \<^item> every method of \<^verbatim>\<open>Model\<close> ends with \<^verbatim>\<open>commit\<close>: a method is a function
    from the committed store to the committed store; a statement that raises changes nothing;
  \<^item> \<^verbatim>\<open>datetime.now(timezone.utc).isoformat()\<close> is a reading of the clock, a string
    handed to the function that takes it;
  \<^item> integers are unbounded (Python's \<^verbatim>\<open>int\<close>; the 64-bit limit of SQLite is out of reach
    of a counter that grows by one per answer).
\<close>

subsection \<open>Python values, as \<^verbatim>\<open>json.load\<close> produces them\<close>

text \<open>
  Numbers with a fraction or an exponent (Python floats) are left out. A dict is the list of
  its items in insertion order; Python keeps one item per key.
\<close>

datatype pyval =
    PNone
  | PBool bool
  | PInt int
  | PStr string
  | PList "pyval list"
  | PDict "(string \<times> pyval) list"

datatype error =
    ValueError        \<comment> \<open>\<^verbatim>\<open>raise ValueError('Deck not found')\<close>\<close>
  | OSError           \<comment> \<open>\<^verbatim>\<open>open\<close> fails\<close>
  | JSONDecodeError   \<comment> \<open>\<^verbatim>\<open>json.load\<close> fails\<close>
  | AttributeError    \<comment> \<open>\<^verbatim>\<open>.get\<close> on a value that is no dict\<close>
  | TypeError         \<comment> \<open>\<^verbatim>\<open>for\<close> over a value that is not iterable\<close>
  | UnicodeDecodeError \<comment> \<open>the file read by \<^verbatim>\<open>json.load\<close> is not UTF-8 text\<close>
  | BindError         \<comment> \<open>sqlite3 cannot bind a list or a dict to a placeholder\<close>
  | OverflowError     \<comment> \<open>sqlite3 cannot bind an integer outside 64 bits\<close>
  | IntegrityError    \<comment> \<open>\<^verbatim>\<open>NOT NULL\<close> constraint\<close>

text \<open>Truth value of a Python object, as \<^verbatim>\<open>or\<close> and \<^verbatim>\<open>if\<close> test it.\<close>

fun truthy :: "pyval \<Rightarrow> bool" where
  "truthy PNone = False"
| "truthy (PBool b) = b"
| "truthy (PInt i) = (i \<noteq> 0)"
| "truthy (PStr s) = (s \<noteq> [])"
| "truthy (PList xs) = (xs \<noteq> [])"
| "truthy (PDict kvs) = (kvs \<noteq> [])"

text \<open>\<^verbatim>\<open>obj.get(key, default)\<close>: only a dict has the method.\<close>

fun py_get :: "pyval \<Rightarrow> string \<Rightarrow> pyval \<Rightarrow> error + pyval" where
  "py_get (PDict kvs) k dflt = Inr (case map_of kvs k of None \<Rightarrow> dflt | Some v \<Rightarrow> v)"
| "py_get _ k dflt = Inl AttributeError"

text \<open>
  \<^verbatim>\<open>for card in obj\<close>: a list yields its elements, a dict its keys, a string its
  characters; the other values are not iterable.
\<close>

fun py_iter :: "pyval \<Rightarrow> error + pyval list" where
  "py_iter (PList xs) = Inr xs"
| "py_iter (PDict kvs) = Inr (map (\<lambda>kv. PStr (fst kv)) kvs)"
| "py_iter (PStr s) = Inr (map (\<lambda>c. PStr [c]) s)"
| "py_iter _ = Inl TypeError"

subsection \<open>Binding a value to a column of type TEXT\<close>

definition digit_char :: "nat \<Rightarrow> char" where
  "digit_char d = ''0123456789'' ! d"

function dec_nat :: "nat \<Rightarrow> string" where
  "dec_nat n = (if n < 10 then [digit_char n] else dec_nat (n div 10) @ [digit_char (n mod 10)])"
  by pat_completeness auto
termination
  by (relation "measure (\<lambda>n. n)") auto

declare dec_nat.simps [simp del]

definition dec_int :: "int \<Rightarrow> string" where
  "dec_int i = (if i < 0 then CHR ''-'' # dec_nat (nat (- i)) else dec_nat (nat i))"

text \<open>
  What a \<^verbatim>\<open>?\<close> placeholder stores in a TEXT column: \<^verbatim>\<open>None\<close> is NULL, a string is
  itself, an integer (and a bool, which sqlite3 passes as 0 or 1) is converted to its decimal text
  by the column affinity. \<^verbatim>\<open>execute\<close> raises on an integer that does not fit the signed
  64 bits of SQLite and on a list or a dict, which have no SQLite type. The option inside
  \<open>Inr\<close> is the NULL. Strings are taken to be text that UTF-8 encodes.
\<close>

fun bind_text :: "pyval \<Rightarrow> error + string option" where
  "bind_text PNone = Inr None"
| "bind_text (PBool b) = Inr (Some (if b then ''1'' else ''0''))"
| "bind_text (PInt i) =
     (if - (2 ^ 63) \<le> i \<and> i < 2 ^ 63 then Inr (Some (dec_int i)) else Inl OverflowError)"
| "bind_text (PStr s) = Inr (Some s)"
| "bind_text (PList xs) = Inl BindError"
| "bind_text (PDict kvs) = Inl BindError"

subsection \<open>The tables\<close>

type_synonym timestamp = string

record deck_row =
  d_id :: int
  d_name :: string
  d_created_at :: timestamp

record card_row =
  c_id :: int
  c_deck_id :: int
  c_front :: "string option"
  c_back :: "string option"
  c_correct_count :: int
  c_seen_count :: int
  c_created_at :: timestamp

record store =
  decks :: "deck_row list"
  cards :: "card_row list"

text \<open>\<^verbatim>\<open>init_db\<close> on a fresh file: both tables exist and are empty.\<close>

definition init_db :: store where
  "init_db = \<lparr>decks = [], cards = []\<rparr>"

text \<open>
  The id SQLite gives a row inserted without one: 1 into an empty table, otherwise one more
  than the largest id in the table.
\<close>

definition next_rowid :: "int list \<Rightarrow> int" where
  "next_rowid ids = (if ids = [] then 1 else Max (set ids) + 1)"

subsection \<open>\<^verbatim>\<open>class Model\<close>\<close>

text \<open>
  A method that can raise returns the store it leaves behind together with the error or the
  value; a method whose statements cannot fail returns the store alone. The ids passed in are
  integers within the 64 bits of a rowid, as the callers take them from the store. The
  parameters of a statement are bound in their order, so the first that cannot be bound
  decides the error.
\<close>

definition add_deck :: "store \<Rightarrow> timestamp \<Rightarrow> pyval \<Rightarrow> store \<times> (error + int)" where
  "add_deck s now name =
     (case bind_text name of
        Inl e \<Rightarrow> (s, Inl e)
      | Inr None \<Rightarrow> (s, Inl IntegrityError)
      | Inr (Some n) \<Rightarrow>
          (let i = next_rowid (map d_id (decks s))
           in (s\<lparr>decks := decks s @ [\<lparr>d_id = i, d_name = n, d_created_at = now\<rparr>]\<rparr>, Inr i)))"

definition rename_deck :: "store \<Rightarrow> int \<Rightarrow> pyval \<Rightarrow> store \<times> (error + unit)" where
  "rename_deck s deck_id new_name =
     (case bind_text new_name of
        Inl e \<Rightarrow> (s, Inl e)
      | Inr None \<Rightarrow>
          (if deck_id \<in> set (map d_id (decks s)) then (s, Inl IntegrityError) else (s, Inr ()))
      | Inr (Some n) \<Rightarrow>
          (s\<lparr>decks := map (\<lambda>d. if d_id d = deck_id then d\<lparr>d_name := n\<rparr> else d) (decks s)\<rparr>,
           Inr ()))"

definition delete_deck :: "store \<Rightarrow> int \<Rightarrow> store" where
  "delete_deck s deck_id =
     (let s1 = s\<lparr>cards := filter (\<lambda>c. c_deck_id c \<noteq> deck_id) (cards s)\<rparr>;
          s2 = s1\<lparr>decks := filter (\<lambda>d. d_id d \<noteq> deck_id) (decks s1)\<rparr>
      in s2)"

type_synonym card_tuple = "int \<times> string option \<times> string option \<times> int \<times> int"

definition card_tuple :: "card_row \<Rightarrow> card_tuple" where
  "card_tuple c = (c_id c, c_front c, c_back c, c_correct_count c, c_seen_count c)"

definition cards_in_deck :: "store \<Rightarrow> int \<Rightarrow> card_tuple list" where
  "cards_in_deck s deck_id =
     map card_tuple (sort_key c_id (filter (\<lambda>c. c_deck_id c = deck_id) (cards s)))"

definition add_card :: "store \<Rightarrow> timestamp \<Rightarrow> int \<Rightarrow> pyval \<Rightarrow> pyval \<Rightarrow> store \<times> (error + int)"
  where
  "add_card s now deck_id front back =
     (case bind_text front of
        Inl e \<Rightarrow> (s, Inl e)
      | Inr f \<Rightarrow>
          (case bind_text back of
             Inl e \<Rightarrow> (s, Inl e)
           | Inr b \<Rightarrow>
               (let i = next_rowid (map c_id (cards s))
                in (s\<lparr>cards := cards s @
                       [\<lparr>c_id = i, c_deck_id = deck_id, c_front = f, c_back = b,
                         c_correct_count = 0, c_seen_count = 0, c_created_at = now\<rparr>]\<rparr>,
                    Inr i))))"

definition update_card :: "store \<Rightarrow> int \<Rightarrow> pyval \<Rightarrow> pyval \<Rightarrow> store \<times> (error + unit)" where
  "update_card s card_id front back =
     (case bind_text front of
        Inl e \<Rightarrow> (s, Inl e)
      | Inr f \<Rightarrow>
          (case bind_text back of
             Inl e \<Rightarrow> (s, Inl e)
           | Inr b \<Rightarrow>
               (s\<lparr>cards := map (\<lambda>c. if c_id c = card_id then c\<lparr>c_front := f, c_back := b\<rparr>
                                         else c) (cards s)\<rparr>,
                Inr ())))"

definition delete_card :: "store \<Rightarrow> int \<Rightarrow> store" where
  "delete_card s card_id = s\<lparr>cards := filter (\<lambda>c. c_id c \<noteq> card_id) (cards s)\<rparr>"

definition record_result :: "store \<Rightarrow> int \<Rightarrow> bool \<Rightarrow> store" where
  "record_result s card_id correct =
     (if correct then
        s\<lparr>cards := map (\<lambda>c. if c_id c = card_id
                             then c\<lparr>c_correct_count := c_correct_count c + 1,
                                    c_seen_count := c_seen_count c + 1\<rparr>
                             else c) (cards s)\<rparr>
      else
        s\<lparr>cards := map (\<lambda>c. if c_id c = card_id
                             then c\<lparr>c_seen_count := c_seen_count c + 1\<rparr>
                             else c) (cards s)\<rparr>)"

subsection \<open>Export and import\<close>

text \<open>
  A path of the file system holds a JSON document, or text that \<^verbatim>\<open>json.load\<close> rejects,
  or bytes that are not UTF-8 text, or cannot be opened. \<^verbatim>\<open>json.dump\<close> followed by \<^verbatim>\<open>json.load\<close> returns the
  dumped value (dicts with string keys, strings, integers, \<^verbatim>\<open>None\<close>), so a document is
  kept as the value it denotes. The destination of an export is taken to be writable.
\<close>

datatype disk_file = Unreadable | Undecodable | Malformed | Document pyval

type_synonym filesystem = "string \<Rightarrow> disk_file"

definition py_text :: "string option \<Rightarrow> pyval" where
  "py_text t = (case t of None \<Rightarrow> PNone | Some x \<Rightarrow> PStr x)"

definition card_dict :: "card_row \<Rightarrow> pyval" where
  "card_dict r =
     PDict [(''front'', py_text (c_front r)), (''back'', py_text (c_back r)),
            (''correct_count'', PInt (c_correct_count r)),
            (''seen_count'', PInt (c_seen_count r)),
            (''created_at'', PStr (c_created_at r))]"

definition export_payload :: "string \<Rightarrow> timestamp \<Rightarrow> card_row list \<Rightarrow> pyval" where
  "export_payload deck_name now rows =
     PDict [(''name'', PStr deck_name), (''exported_at'', PStr now),
            (''cards'', PList (map card_dict rows))]"

definition export_deck_json ::
  "store \<Rightarrow> timestamp \<Rightarrow> int \<Rightarrow> string \<Rightarrow> filesystem \<Rightarrow> error + filesystem" where
  "export_deck_json s now deck_id path fs =
     (case find (\<lambda>d. d_id d = deck_id) (decks s) of
        None \<Rightarrow> Inl ValueError
      | Some row \<Rightarrow>
          (let deck_name = d_name row;
               rows = filter (\<lambda>c. c_deck_id c = deck_id) (cards s);
               payload = export_payload deck_name now rows
           in Inr (fs(path := Document payload))))"

text \<open>
  The loop of \<^verbatim>\<open>import_deck_json\<close>. \<^verbatim>\<open>clk n\<close> is the \<open>n\<close>-th reading of the clock
  that the call takes; each \<^verbatim>\<open>add_card\<close> takes one and commits on its own.
\<close>

fun import_cards ::
  "store \<Rightarrow> (nat \<Rightarrow> timestamp) \<Rightarrow> nat \<Rightarrow> int \<Rightarrow> pyval list \<Rightarrow> store \<times> (error + unit)" where
  "import_cards s clk n deck_id [] = (s, Inr ())"
| "import_cards s clk n deck_id (item # rest) =
     (case py_get item ''front'' (PStr []) of
        Inl e \<Rightarrow> (s, Inl e)
      | Inr f \<Rightarrow>
          (case py_get item ''back'' (PStr []) of
             Inl e \<Rightarrow> (s, Inl e)
           | Inr b \<Rightarrow>
               (case add_card s (clk n) deck_id f b of
                  (s1, Inl e) \<Rightarrow> (s1, Inl e)
                | (s1, Inr i) \<Rightarrow> import_cards s1 clk (Suc n) deck_id rest)))"

text \<open>
  The default name is built only when \<^verbatim>\<open>payload.get('name')\<close> is false (\<^verbatim>\<open>or\<close>
  evaluates its right side on demand), so the clock is read for it only then.
\<close>

definition import_deck_json ::
  "store \<Rightarrow> (nat \<Rightarrow> timestamp) \<Rightarrow> filesystem \<Rightarrow> string \<Rightarrow> store \<times> (error + int)" where
  "import_deck_json s clk fs path =
     (case fs path of
        Unreadable \<Rightarrow> (s, Inl OSError)
      | Undecodable \<Rightarrow> (s, Inl UnicodeDecodeError)
      | Malformed \<Rightarrow> (s, Inl JSONDecodeError)
      | Document payload \<Rightarrow>
          (case py_get payload ''name'' PNone of
             Inl e \<Rightarrow> (s, Inl e)
           | Inr v \<Rightarrow>
               (let (name, n) = (if truthy v then (v, 0) else (PStr (''Deck '' @ clk 0), 1))
                in case add_deck s (clk n) name of
                     (s1, Inl e) \<Rightarrow> (s1, Inl e)
                   | (s1, Inr deck_id) \<Rightarrow>
                       (case py_get payload ''cards'' (PList []) of
                          Inl e \<Rightarrow> (s1, Inl e)
                        | Inr cs \<Rightarrow>
                            (case py_iter cs of
                               Inl e \<Rightarrow> (s1, Inl e)
                             | Inr items \<Rightarrow>
                                 (case import_cards s1 clk (Suc n) deck_id items of
                                    (s2, Inl e) \<Rightarrow> (s2, Inl e)
                                  | (s2, Inr u) \<Rightarrow> (s2, Inr deck_id)))))))"

subsection \<open>\<^verbatim>\<open>class StudyWindow\<close>\<close>

record entry =
  e_id :: int
  e_front :: "string option"
  e_back :: "string option"

text \<open>
  The window: its queue, the current entry, the flip flag, the text of the label, and
  whether \<^verbatim>\<open>next_card\<close> has announced the end and destroyed the window.
\<close>

record study_window =
  queue :: "entry list"
  current :: "entry option"
  back_shown :: bool
  front_lbl :: string
  destroyed :: bool

text \<open>\<^verbatim>\<open>text or '(empty)'\<close> on a column value, which is a string or \<^verbatim>\<open>None\<close>.\<close>

definition or_empty :: "string option \<Rightarrow> string" where
  "or_empty t = (case t of None \<Rightarrow> ''(empty)'' | Some x \<Rightarrow> (if x = [] then ''(empty)'' else x))"

definition next_card :: "study_window \<Rightarrow> study_window" where
  "next_card w =
     (case queue w of
        [] \<Rightarrow> w\<lparr>destroyed := True\<rparr>
      | e # rest \<Rightarrow>
          w\<lparr>queue := rest, current := Some e, front_lbl := or_empty (e_front e),
            back_shown := False\<rparr>)"

definition flip :: "study_window \<Rightarrow> study_window" where
  "flip w =
     (case current w of
        None \<Rightarrow> w
      | Some e \<Rightarrow>
          (if \<not> back_shown w then w\<lparr>front_lbl := or_empty (e_back e), back_shown := True\<rparr>
           else w\<lparr>front_lbl := or_empty (e_front e), back_shown := False\<rparr>))"

definition mark :: "study_window \<times> store \<Rightarrow> bool \<Rightarrow> study_window \<times> store" where
  "mark ws correct =
     (case current (fst ws) of
        None \<Rightarrow> ws
      | Some e \<Rightarrow>
          (let s1 = record_result (snd ws) (e_id e) correct;
               w1 = (if correct then fst ws else (fst ws)\<lparr>queue := queue (fst ws) @ [e]\<rparr>)
           in (next_card w1, s1)))"

text \<open>\<^verbatim>\<open>StudyWindow.__init__\<close>: copy the queue, no current entry, build the widgets, advance.\<close>

definition study_window_init :: "entry list \<Rightarrow> study_window" where
  "study_window_init study_queue =
     next_card \<lparr>queue = study_queue, current = None, back_shown = False, front_lbl = [],
                destroyed = False\<rparr>"

definition card_entry :: "card_tuple \<Rightarrow> entry" where
  "card_entry c = (case c of (i, f, b, cc, sc) \<Rightarrow> \<lparr>e_id = i, e_front = f, e_back = b\<rparr>)"

text \<open>
  \<^verbatim>\<open>App.start_study\<close>: no window without a selected deck (\<^verbatim>\<open>None\<close>, or 0 which
  \<^verbatim>\<open>not\<close> takes for false) and none for a deck without cards.
\<close>

definition start_study :: "store \<Rightarrow> int option \<Rightarrow> study_window option" where
  "start_study s selected_deck_id =
     (case selected_deck_id of
        None \<Rightarrow> None
      | Some d \<Rightarrow>
          (if d = 0 then None
           else (let cs = cards_in_deck s d
                 in if cs = [] then None else Some (study_window_init (map card_entry cs)))))"

text \<open>A run of \<open>k\<close> presses of the same button.\<close>

fun marks :: "nat \<Rightarrow> bool \<Rightarrow> study_window \<times> store \<Rightarrow> study_window \<times> store" where
  "marks 0 correct ws = ws"
| "marks (Suc k) correct ws = marks k correct (mark ws correct)"

subsection \<open>Invariants of the store\<close>

text \<open>
  The rows of each table lie in ascending order of their ids (the B-tree order), and no card
  is an orphan when its \<^verbatim>\<open>deck_id\<close> is the id of a row of \<^verbatim>\<open>decks\<close>.
\<close>

definition rowid_ordered :: "store \<Rightarrow> bool" where
  "rowid_ordered s \<longleftrightarrow>
     sorted_wrt (<) (map d_id (decks s)) \<and> sorted_wrt (<) (map c_id (cards s))"

definition no_orphans :: "store \<Rightarrow> bool" where
  "no_orphans s \<longleftrightarrow> list_all (\<lambda>c. c_deck_id c \<in> set (map d_id (decks s))) (cards s)"

subsection \<open>A store and a file system to compute on\<close>

text \<open>The deck ``Spanish'' with the cards hola/hello and adios/bye, not yet studied.\<close>

definition demo :: store where
  "demo =
     \<lparr>decks = [\<lparr>d_id = 1, d_name = ''Spanish'', d_created_at = ''2024-01-01T00:00:00+00:00''\<rparr>],
      cards = [\<lparr>c_id = 1, c_deck_id = 1, c_front = Some ''hola'', c_back = Some ''hello'',
                c_correct_count = 0, c_seen_count = 0,
                c_created_at = ''2024-01-01T00:00:01+00:00''\<rparr>,
               \<lparr>c_id = 2, c_deck_id = 1, c_front = Some ''adios'', c_back = Some ''bye'',
                c_correct_count = 0, c_seen_count = 0,
                c_created_at = ''2024-01-01T00:00:02+00:00''\<rparr>]\<rparr>"

text \<open>The queue that \<^verbatim>\<open>start_study\<close> builds for that deck.\<close>

definition demo_queue :: "entry list" where
  "demo_queue = [\<lparr>e_id = 1, e_front = Some ''hola'', e_back = Some ''hello''\<rparr>,
                 \<lparr>e_id = 2, e_front = Some ''adios'', e_back = Some ''bye''\<rparr>]"

subsection \<open>What an import reads and writes\<close>

text \<open>
  The two column values that the loop of \<^verbatim>\<open>import_deck_json\<close> takes from one element of
  \<^verbatim>\<open>cards\<close>, if the element gets as far as the \<^verbatim>\<open>INSERT\<close>; no other key is read.
\<close>

definition card_texts :: "pyval \<Rightarrow> (string option \<times> string option) option" where
  "card_texts item =
     (case (py_get item ''front'' (PStr []), py_get item ''back'' (PStr [])) of
        (Inr f, Inr b) \<Rightarrow>
          (case (bind_text f, bind_text b) of (Inr x, Inr y) \<Rightarrow> Some (x, y) | _ \<Rightarrow> None)
      | _ \<Rightarrow> None)"

text \<open>
  The rows that a run of successful \<^verbatim>\<open>add_card\<close> calls appends: consecutive ids from
  \<open>i\<close>, consecutive clock readings from \<open>n\<close>, counters at their default 0.
\<close>

fun imported_rows ::
  "int \<Rightarrow> (nat \<Rightarrow> timestamp) \<Rightarrow> nat \<Rightarrow> int \<Rightarrow> (string option \<times> string option) list \<Rightarrow> card_row list"
  where
  "imported_rows i clk n deck_id [] = []"
| "imported_rows i clk n deck_id (fb # rest) =
     \<lparr>c_id = i, c_deck_id = deck_id, c_front = fst fb, c_back = snd fb,
      c_correct_count = 0, c_seen_count = 0, c_created_at = clk n\<rparr>
     # imported_rows (i + 1) clk (Suc n) deck_id rest"

text \<open>
  The cards of a payload in the wire format: \<^verbatim>\<open>cards\<close> is missing or a list of objects
  whose \<^verbatim>\<open>front\<close> and \<^verbatim>\<open>back\<close>, where present, are strings.
\<close>

fun is_text :: "pyval \<Rightarrow> bool" where
  "is_text (PStr t) = True"
| "is_text _ = False"

fun wire_card :: "pyval \<Rightarrow> bool" where
  "wire_card (PDict kvs) =
     (is_text (case map_of kvs ''front'' of None \<Rightarrow> PStr [] | Some v \<Rightarrow> v) \<and>
      is_text (case map_of kvs ''back'' of None \<Rightarrow> PStr [] | Some v \<Rightarrow> v))"
| "wire_card _ = False"

definition wire_cards :: "(string \<times> pyval) list \<Rightarrow> bool" where
  "wire_cards kvs =
     (case map_of kvs ''cards'' of
        None \<Rightarrow> True
      | Some (PList cs) \<Rightarrow> list_all wire_card cs
      | Some _ \<Rightarrow> False)"

text \<open>A file system with one file, and a clock whose first readings differ.\<close>

definition one_file :: "string \<Rightarrow> disk_file \<Rightarrow> filesystem" where
  "one_file path content = (\<lambda>p. Unreadable)(path := content)"

definition demo_clock :: "nat \<Rightarrow> timestamp" where
  "demo_clock n =
     (if n = 0 then ''2024-03-01T00:00:00+00:00''
      else if n = 1 then ''2024-03-01T00:00:01+00:00''
      else ''2024-03-01T00:00:02+00:00'')"

text \<open>The deck after some study, its export, and the store that imports the file.\<close>

definition studied :: store where
  "studied = record_result (record_result demo 1 False) 2 True"

definition exported :: filesystem where
  "exported =
     (case export_deck_json studied ''2024-02-01T00:00:00+00:00'' 1 ''spanish.json''
             (one_file ''spanish.json'' Unreadable) of
        Inr fs \<Rightarrow> fs
      | Inl e \<Rightarrow> one_file ''spanish.json'' Unreadable)"

text \<open>
  A store that three calls of \<^verbatim>\<open>Model\<close> build from the empty one: a deck, a card in
  it, and a card for deck 2, which does not exist.
\<close>

definition orphaned :: store where
  "orphaned =
     fst (add_card
       (fst (add_card
         (fst (add_deck init_db ''2024-01-01T00:00:00+00:00'' (PStr ''A'')))
         ''2024-01-01T00:00:01+00:00'' 1 (PStr ''a'') (PStr ''b'')))
       ''2024-01-01T00:00:02+00:00'' 2 (PStr ''x'') (PStr ''y''))"

section \<open>Properties\<close>

subsection \<open>Helper facts\<close>

lemma map_unmatched:
  "k \<notin> set (map f xs) \<Longrightarrow> map (\<lambda>c. if f c = k then g c else c) xs = xs"
  by (induction xs) auto

lemma filter_other:
  "k' \<noteq> k \<Longrightarrow> filter (\<lambda>c. f c = k') (filter (\<lambda>c. f c \<noteq> k) xs) = filter (\<lambda>c. f c = k') xs"
  by (induction xs) auto

lemma find_key:
  "k \<in> set (map f xs) \<Longrightarrow> \<exists>r. find (\<lambda>r. f r = k) xs = Some r \<and> f r = k"
  by (induction xs) auto

lemma marks_Suc_end: "marks (Suc k) c ws = mark (marks k c ws) c"
  by (induction k arbitrary: ws) simp_all

lemma mark_true_step:
  "current w = Some e \<Longrightarrow> queue w = x # rest \<Longrightarrow>
     fst (mark (w, s) True) =
       w\<lparr>queue := rest, current := Some x, front_lbl := or_empty (e_front x), back_shown := False\<rparr>"
  by (simp add: mark_def next_card_def)

lemma marks_true_run:
  "current w = Some e \<Longrightarrow> \<not> destroyed w \<Longrightarrow> k \<le> length (queue w) \<Longrightarrow>
     queue (fst (marks k True (w, s))) = drop k (queue w) \<and>
     \<not> destroyed (fst (marks k True (w, s))) \<and>
     current (fst (marks k True (w, s))) = Some ((e # queue w) ! k)"
proof (induction k arbitrary: w e s)
  case 0
  then show ?case by simp
next
  case (Suc k)
  then obtain x rest where q: "queue w = x # rest"
    by (cases "queue w") auto
  define w1 where "w1 = fst (mark (w, s) True)"
  define s1 where "s1 = snd (mark (w, s) True)"
  have w1: "w1 = w\<lparr>queue := rest, current := Some x, front_lbl := or_empty (e_front x),
                   back_shown := False\<rparr>"
    unfolding w1_def using Suc.prems(1) q by (rule mark_true_step)
  have step: "marks (Suc k) True (w, s) = marks k True (w1, s1)"
    by (simp add: w1_def s1_def)
  have "current w1 = Some x" "\<not> destroyed w1" "k \<le> length (queue w1)" "queue w1 = rest"
    using Suc.prems q by (simp_all add: w1)
  from Suc.IH [OF this(1,2,3), of s1] this(4) q show ?case
    unfolding step by simp
qed

lemma marks_true_end:
  assumes "current w = Some e" "\<not> destroyed w"
  shows "destroyed (fst (marks (Suc (length (queue w))) True (w, s))) \<and>
         queue (fst (marks (Suc (length (queue w))) True (w, s))) = []"
proof -
  define ws where "ws = marks (length (queue w)) True (w, s)"
  from marks_true_run [OF assms, of "length (queue w)" s]
  have "queue (fst ws) = []" "current (fst ws) \<noteq> None"
    by (simp_all add: ws_def)
  then have "destroyed (fst (mark ws True)) \<and> queue (fst (mark ws True)) = []"
    by (auto simp: mark_def next_card_def)
  then show ?thesis
    unfolding marks_Suc_end ws_def .
qed

lemma next_rowid_greater: "x \<in> set ids \<Longrightarrow> x < next_rowid ids"
proof -
  assume x: "x \<in> set ids"
  then have "x \<le> Max (set ids)" by simp
  with x show ?thesis by (auto simp: next_rowid_def)
qed

lemma next_rowid_fresh: "next_rowid ids \<notin> set ids"
  using next_rowid_greater [of "next_rowid ids" ids] by auto

lemma next_rowid_append: "next_rowid (ids @ [next_rowid ids]) = next_rowid ids + 1"
proof (cases "ids = []")
  case True
  then show ?thesis by (simp add: next_rowid_def)
next
  case False
  have "Max (insert (Max (set ids) + 1) (set ids)) = Max (set ids) + 1"
  proof (rule Max_eqI)
    show "finite (insert (Max (set ids) + 1) (set ids))" by simp
    show "Max (set ids) + 1 \<in> insert (Max (set ids) + 1) (set ids)" by simp
    fix y assume "y \<in> insert (Max (set ids) + 1) (set ids)"
    then have "y = Max (set ids) + 1 \<or> y \<le> Max (set ids)" by auto
    then show "y \<le> Max (set ids) + 1" by linarith
  qed
  with False show ?thesis by (simp add: next_rowid_def)
qed

lemma sorted_wrt_snoc_next:
  "sorted_wrt (<) ids \<Longrightarrow> sorted_wrt (<) (ids @ [next_rowid ids])"
  by (simp add: sorted_wrt_append next_rowid_greater)

lemma rowid_ordered_init_db: "rowid_ordered init_db"
  by (simp add: rowid_ordered_def init_db_def)

lemma rowid_ordered_add_deck:
  "rowid_ordered s \<Longrightarrow> rowid_ordered (fst (add_deck s now name))"
  by (auto simp: rowid_ordered_def add_deck_def Let_def sorted_wrt_snoc_next
      split: sum.splits option.splits)

lemma rowid_ordered_add_card:
  "rowid_ordered s \<Longrightarrow> rowid_ordered (fst (add_card s now d front back))"
  by (auto simp: rowid_ordered_def add_card_def Let_def sorted_wrt_snoc_next
      split: sum.splits option.splits)

lemma map_key_update:
  "(\<And>x. f (g x) = f x) \<Longrightarrow> map (f \<circ> (\<lambda>x. if p x then g x else x)) xs = map f xs"
  by (induction xs) auto

lemma rowid_ordered_rename_deck:
  "rowid_ordered s \<Longrightarrow> rowid_ordered (fst (rename_deck s d name))"
  by (auto simp: rowid_ordered_def rename_deck_def map_key_update split: sum.splits option.splits)

lemma rowid_ordered_update_card:
  "rowid_ordered s \<Longrightarrow> rowid_ordered (fst (update_card s i front back))"
  by (auto simp: rowid_ordered_def update_card_def map_key_update split: sum.splits option.splits)

lemma rowid_ordered_record_result:
  "rowid_ordered s \<Longrightarrow> rowid_ordered (record_result s i correct)"
  by (auto simp: rowid_ordered_def record_result_def map_key_update)

lemma sorted_wrt_map_filter:
  "sorted_wrt (<) (map f xs) \<Longrightarrow> sorted_wrt (<) (map f (filter p xs))"
  by (induction xs) auto

lemma rowid_ordered_delete_card:
  "rowid_ordered s \<Longrightarrow> rowid_ordered (delete_card s i)"
  by (auto simp: rowid_ordered_def delete_card_def sorted_wrt_map_filter)

lemma rowid_ordered_delete_deck:
  "rowid_ordered s \<Longrightarrow> rowid_ordered (delete_deck s d)"
  by (auto simp: rowid_ordered_def delete_deck_def Let_def sorted_wrt_map_filter)

lemma rowid_ordered_import_cards:
  "rowid_ordered s \<Longrightarrow> rowid_ordered (fst (import_cards s clk n d items))"
proof (induction items arbitrary: s n)
  case Nil
  then show ?case by simp
next
  case (Cons item items)
  have step: "rowid_ordered (fst (add_card s now d f b))" for now f b
    using Cons.prems by (rule rowid_ordered_add_card)
  show ?case
    using Cons.prems step Cons.IH
    by (simp add: case_prod_beta split: sum.splits)
qed

lemma rowid_ordered_import_deck_json:
  "rowid_ordered s \<Longrightarrow> rowid_ordered (fst (import_deck_json s clk fs path))"
proof -
  assume s: "rowid_ordered s"
  have "rowid_ordered (fst (add_deck s now name))" for now name
    using s by (rule rowid_ordered_add_deck)
  then have "rowid_ordered (fst (import_cards (fst (add_deck s now name)) clk n d items))"
    and "rowid_ordered (fst (add_deck s now name))" for now name n d items
    by (simp_all add: rowid_ordered_import_cards)
  with s show ?thesis
    by (simp add: import_deck_json_def case_prod_beta Let_def
        split: disk_file.splits sum.splits)
qed

lemma sort_key_filter_ordered:
  "sorted_wrt (<) (map f xs) \<Longrightarrow> sort_key f (filter p xs) = filter p xs"
  by (intro sort_key_id_if_sorted strict_sorted_imp_sorted sorted_wrt_map_filter)

lemma decks_add_card: "decks (fst (add_card s now d f b)) = decks s"
  by (simp add: add_card_def Let_def split: sum.splits option.splits)

lemma decks_import_cards: "decks (fst (import_cards s clk n d items)) = decks s"
proof (induction items arbitrary: s n)
  case Nil
  show ?case by simp
next
  case (Cons item items)
  show ?case
    using Cons.IH decks_add_card
    by (simp add: case_prod_beta split: sum.splits)
qed

lemma import_cards_rows:
  "list_all (\<lambda>i. card_texts i \<noteq> None) items \<Longrightarrow>
     import_cards s clk n d items =
       (s\<lparr>cards := cards s @
            imported_rows (next_rowid (map c_id (cards s))) clk n d
              (List.map_filter card_texts items)\<rparr>, Inr ())"
proof (induction items arbitrary: s n)
  case Nil
  show ?case by (simp add: List.map_filter_simps)
next
  case (Cons item items)
  from Cons.prems obtain x y where xy: "card_texts item = Some (x, y)"
    by auto
  then obtain f b where fb: "py_get item ''front'' (PStr []) = Inr f"
      "py_get item ''back'' (PStr []) = Inr b" "bind_text f = Inr x" "bind_text b = Inr y"
    by (auto simp: card_texts_def split: sum.splits)
  define row where "row = \<lparr>c_id = next_rowid (map c_id (cards s)), c_deck_id = d, c_front = x,
      c_back = y, c_correct_count = 0, c_seen_count = 0, c_created_at = clk n\<rparr>"
  define s1 where "s1 = s\<lparr>cards := cards s @ [row]\<rparr>"
  have add: "add_card s (clk n) d f b = (s1, Inr (next_rowid (map c_id (cards s))))"
    by (simp add: add_card_def fb Let_def s1_def row_def)
  from Cons.prems have "list_all (\<lambda>i. card_texts i \<noteq> None) items" by simp
  from Cons.IH [OF this, of s1 "Suc n"] show ?case
    by (simp add: fb add xy List.map_filter_simps s1_def row_def next_rowid_append)
qed

lemma wire_card_texts: "wire_card item \<Longrightarrow> card_texts item \<noteq> None"
proof (cases item)
  case (PDict kvs)
  assume "wire_card item"
  with PDict obtain t u where
    "(case map_of kvs ''front'' of None \<Rightarrow> PStr [] | Some v \<Rightarrow> v) = PStr t"
    "(case map_of kvs ''back'' of None \<Rightarrow> PStr [] | Some v \<Rightarrow> v) = PStr u"
    by (auto elim!: is_text.elims)
  with PDict show ?thesis by (simp add: card_texts_def)
qed simp_all

lemma card_dict_texts: "card_texts (card_dict r) = Some (c_front r, c_back r)"
  by (simp add: card_texts_def card_dict_def py_text_def split: sum.splits option.splits)

lemma map_filter_card_dict:
  "List.map_filter card_texts (map card_dict rows) = map (\<lambda>r. (c_front r, c_back r)) rows"
  by (induction rows) (simp_all add: List.map_filter_simps card_dict_texts)

lemma length_imported_rows [simp]: "length (imported_rows i clk n d fbs) = length fbs"
  by (induction fbs arbitrary: i n) simp_all

lemma imported_rows_nth:
  "k < length fbs \<Longrightarrow>
     imported_rows i clk n d fbs ! k =
       \<lparr>c_id = i + int k, c_deck_id = d, c_front = fst (fbs ! k), c_back = snd (fbs ! k),
        c_correct_count = 0, c_seen_count = 0, c_created_at = clk (n + k)\<rparr>"
proof (induction fbs arbitrary: i n k)
  case Nil
  then show ?case by simp
next
  case (Cons fb fbs)
  show ?case
  proof (cases k)
    case 0
    then show ?thesis by simp
  next
    case (Suc j)
    with Cons.prems have "j < length fbs" by simp
    from Cons.IH [OF this, of "i + 1" "Suc n"] Suc show ?thesis by simp
  qed
qed

lemma imported_rows_set:
  "c \<in> set (imported_rows i clk n d fbs) \<Longrightarrow>
     c_deck_id c = d \<and> c_correct_count c = 0 \<and> c_seen_count c = 0 \<and> i \<le> c_id c \<and>
     (\<exists>k. c_created_at c = clk k)"
proof (induction fbs arbitrary: i n)
  case Nil
  then show ?case by simp
next
  case (Cons fb fbs)
  from Cons.prems consider
    "c = \<lparr>c_id = i, c_deck_id = d, c_front = fst fb, c_back = snd fb,
          c_correct_count = 0, c_seen_count = 0, c_created_at = clk n\<rparr>"
    | "c \<in> set (imported_rows (i + 1) clk (Suc n) d fbs)"
    by auto
  then show ?case
  proof cases
    case 1
    then show ?thesis by auto
  next
    case 2
    from Cons.IH [OF this] show ?thesis by auto
  qed
qed

lemma imported_rows_sorted: "sorted_wrt (<) (map c_id (imported_rows i clk n d fbs))"
proof (induction fbs arbitrary: i n)
  case Nil
  show ?case by simp
next
  case (Cons fb fbs)
  have "i < c_id c" if "c \<in> set (imported_rows (i + 1) clk (Suc n) d fbs)" for c
    using imported_rows_set [OF that] by simp
  with Cons.IH [of "i + 1" "Suc n"] show ?case by auto
qed

lemma imported_rows_texts:
  "map (\<lambda>c. (c_front c, c_back c)) (imported_rows i clk n d fbs) = fbs"
  by (induction fbs arbitrary: i n) simp_all

lemma import_wire:
  assumes doc: "fs path = Document (PDict kvs)"
    and v: "(case map_of kvs ''name'' of None \<Rightarrow> PNone | Some x \<Rightarrow> x) = v"
    and nm: "bind_text (if truthy v then v else PStr (''Deck '' @ clk 0)) = Inr (Some nm)"
    and cs: "(case map_of kvs ''cards'' of None \<Rightarrow> PList [] | Some x \<Rightarrow> x) = PList cs"
    and ok: "list_all (\<lambda>i. card_texts i \<noteq> None) cs"
  shows "import_deck_json s clk fs path =
    (s\<lparr>decks := decks s @
         [\<lparr>d_id = next_rowid (map d_id (decks s)), d_name = nm,
           d_created_at = clk (if truthy v then 0 else 1)\<rparr>],
       cards := cards s @
         imported_rows (next_rowid (map c_id (cards s))) clk (Suc (if truthy v then 0 else 1))
           (next_rowid (map d_id (decks s))) (List.map_filter card_texts cs)\<rparr>,
     Inr (next_rowid (map d_id (decks s))))"
proof (cases "truthy v")
  case True
  with nm have "bind_text v = Inr (Some nm)" by simp
  with True show ?thesis
    by (simp add: import_deck_json_def doc v add_deck_def cs import_cards_rows [OF ok] Let_def)
next
  case False
  with nm have "nm = ''Deck '' @ clk 0" by simp
  with False show ?thesis
    by (simp add: import_deck_json_def doc v add_deck_def cs import_cards_rows [OF ok] Let_def)
qed

lemma import_decks:
  assumes doc: "fs path = Document (PDict kvs)"
    and v: "(case map_of kvs ''name'' of None \<Rightarrow> PNone | Some x \<Rightarrow> x) = v"
    and nm: "bind_text (if truthy v then v else PStr (''Deck '' @ clk 0)) = Inr (Some nm)"
  shows "decks (fst (import_deck_json s clk fs path)) =
    decks s @ [\<lparr>d_id = next_rowid (map d_id (decks s)), d_name = nm,
                d_created_at = clk (if truthy v then 0 else 1)\<rparr>]"
proof (cases "truthy v")
  case True
  with nm have "bind_text v = Inr (Some nm)" by simp
  with True show ?thesis
    by (simp add: import_deck_json_def doc v add_deck_def Let_def case_prod_beta
        decks_import_cards split: sum.splits)
next
  case False
  with nm have "nm = ''Deck '' @ clk 0" by simp
  with False show ?thesis
    by (simp add: import_deck_json_def doc v add_deck_def Let_def case_prod_beta
        decks_import_cards split: sum.splits)
qed

lemma wire_cards_items:
  assumes "wire_cards kvs"
  obtains cs where "(case map_of kvs ''cards'' of None \<Rightarrow> PList [] | Some x \<Rightarrow> x) = PList cs"
    and "list_all (\<lambda>i. card_texts i \<noteq> None) cs"
proof (cases "map_of kvs ''cards''")
  case None
  then show ?thesis by (intro that [of "[]"]) simp_all
next
  case (Some c)
  with assms obtain cs where c: "c = PList cs" and "list_all wire_card cs"
    by (cases c) (simp_all add: wire_cards_def)
  then have "list_all (\<lambda>i. card_texts i \<noteq> None) cs"
    using wire_card_texts by (auto simp: list_all_iff)
  with Some c show ?thesis by (intro that [of cs]) simp_all
qed

lemma no_orphans_filter:
  "no_orphans s \<Longrightarrow> k \<notin> set (map d_id (decks s)) \<Longrightarrow>
     filter (\<lambda>c. c_deck_id c = k) (cards s) = []"
  by (auto simp: no_orphans_def list_all_iff filter_empty_conv)

lemma imported_rows_filter:
  "filter (\<lambda>c. c_deck_id c = d) (imported_rows i clk n d fbs) = imported_rows i clk n d fbs"
  using imported_rows_set by (auto simp: filter_id_conv)

lemma card_tuple_texts:
  "map (\<lambda>(i, f, b, cc, sc). (f, b)) (map card_tuple rows) = map (\<lambda>c. (c_front c, c_back c)) rows"
  by (simp add: card_tuple_def)

lemma no_orphans_iff:
  "no_orphans s \<longleftrightarrow> set (map c_deck_id (cards s)) \<subseteq> set (map d_id (decks s))"
  by (auto simp: no_orphans_def list_all_iff)

lemma no_orphans_init_db: "no_orphans init_db"
  by (simp add: no_orphans_def init_db_def)

lemma no_orphans_add_deck: "no_orphans s \<Longrightarrow> no_orphans (fst (add_deck s now name))"
  unfolding no_orphans_iff add_deck_def Let_def
  by (auto split: sum.splits option.splits)

lemma no_orphans_add_card:
  "no_orphans s \<Longrightarrow> d \<in> set (map d_id (decks s)) \<Longrightarrow>
     no_orphans (fst (add_card s now d front back))"
  unfolding no_orphans_iff add_card_def Let_def
  by (auto split: sum.splits)

lemma no_orphans_delete_deck: "no_orphans s \<Longrightarrow> no_orphans (delete_deck s d)"
  unfolding no_orphans_iff delete_deck_def Let_def by auto

lemma no_orphans_delete_card: "no_orphans s \<Longrightarrow> no_orphans (delete_card s i)"
  unfolding no_orphans_iff delete_card_def by auto

lemma no_orphans_record_result: "no_orphans s \<Longrightarrow> no_orphans (record_result s i correct)"
proof -
  have "map c_deck_id (cards (record_result s i correct)) = map c_deck_id (cards s)"
    and "decks (record_result s i correct) = decks s"
    by (simp_all add: record_result_def map_key_update)
  then show "no_orphans s \<Longrightarrow> no_orphans (record_result s i correct)"
    unfolding no_orphans_iff by (simp only:)
qed

lemma no_orphans_update_card: "no_orphans s \<Longrightarrow> no_orphans (fst (update_card s i front back))"
proof -
  have "map c_deck_id (cards (fst (update_card s i front back))) = map c_deck_id (cards s)"
    and "decks (fst (update_card s i front back)) = decks s"
    by (simp_all add: update_card_def map_key_update split: sum.splits)
  then show "no_orphans s \<Longrightarrow> no_orphans (fst (update_card s i front back))"
    unfolding no_orphans_iff by (simp only:)
qed

lemma no_orphans_rename_deck: "no_orphans s \<Longrightarrow> no_orphans (fst (rename_deck s d name))"
proof -
  have "map d_id (decks (fst (rename_deck s d name))) = map d_id (decks s)"
    and "cards (fst (rename_deck s d name)) = cards s"
    by (simp_all add: rename_deck_def map_key_update split: sum.splits option.splits)
  then show "no_orphans s \<Longrightarrow> no_orphans (fst (rename_deck s d name))"
    unfolding no_orphans_iff by (simp only:)
qed

lemma record_result_rows:
  "decks (record_result s card_id correct) = decks s \<and>
   length (cards (record_result s card_id correct)) = length (cards s) \<and>
   (\<forall>i < length (cards s).
      (c_id (cards s ! i) = card_id \<longrightarrow>
         cards (record_result s card_id correct) ! i =
           (cards s ! i)\<lparr>c_seen_count := c_seen_count (cards s ! i) + 1,
             c_correct_count := c_correct_count (cards s ! i) + (if correct then 1 else 0)\<rparr>) \<and>
      (c_id (cards s ! i) \<noteq> card_id \<longrightarrow>
         cards (record_result s card_id correct) ! i = cards s ! i))"
  by (simp add: record_result_def)

lemma mark_store: "current w = Some e \<Longrightarrow> snd (mark (w, s) correct) = record_result s (e_id e) correct"
  by (simp add: mark_def Let_def)





subsection \<open>Recording a result\<close>

text \<open>
  Claim C1. One call of \<^verbatim>\<open>record_result\<close> on the id of a stored card adds exactly 1 to
  that card's \<^verbatim>\<open>seen_count\<close>, and adds 1 to its \<^verbatim>\<open>correct_count\<close> exactly when
  \<^verbatim>\<open>correct\<close> is true; the card's other columns, every other card (row by row, in place)
  and the table of decks stay as they were.
\<close>

theorem record_result_counts:
  "decks (record_result s card_id correct) = decks s \<and>
   length (cards (record_result s card_id correct)) = length (cards s) \<and>
   (\<forall>i < length (cards s).
      let c = cards s ! i; c' = cards (record_result s card_id correct) ! i in
      (c_id c = card_id \<longrightarrow>
         c' = c\<lparr>c_seen_count := c_seen_count c + 1,
                c_correct_count := c_correct_count c + (if correct then 1 else 0)\<rparr>) \<and>
      (c_id c \<noteq> card_id \<longrightarrow> c' = c))"
  by (simp add: record_result_def Let_def)

theorem record_result_counts_witness:
  "(0::nat) < length (cards demo) \<and> c_id (cards demo ! 0) = 1 \<and>
   c_seen_count (cards (record_result demo 1 True) ! 0) = 1 \<and>
   c_correct_count (cards (record_result demo 1 True) ! 0) = 1 \<and>
   cards (record_result demo 1 True) ! 1 = cards demo ! 1"
  using record_result_counts [of demo 1 True]
  by (simp add: demo_def Let_def)

text \<open>
  Claim C10. For an id that no stored card has, \<^verbatim>\<open>record_result\<close> returns (it has no
  error result) and leaves the store as it was; so \<^verbatim>\<open>mark\<close> on an entry whose card was
  deleted during the session changes nothing in the store and advances the window as usual.
\<close>

theorem record_result_missing:
  "card_id \<notin> set (map c_id (cards s)) \<Longrightarrow>
     record_result s card_id correct = s \<and>
     (\<forall>w e. current w = Some e \<and> e_id e = card_id \<longrightarrow>
        mark (w, s) correct =
          (next_card (if correct then w else w\<lparr>queue := queue w @ [e]\<rparr>), s))"
  by (simp add: record_result_def mark_def map_unmatched Let_def)

theorem record_result_missing_witness:
  "(99::int) \<notin> set (map c_id (cards demo)) \<and> record_result demo 99 True = demo"
  using record_result_missing [of 99 demo True]
  by (simp add: demo_def)

subsection \<open>Editing a card\<close>

text \<open>
  Claim C9. \<^verbatim>\<open>update_card\<close> changes nothing but the \<^verbatim>\<open>front\<close> and \<^verbatim>\<open>back\<close>
  of the rows with the given id: every row keeps its id, \<^verbatim>\<open>deck_id\<close>, both counters and
  \<^verbatim>\<open>created_at\<close>, every other row is equal to before, the table of decks is equal to
  before; when the call raises, the whole store is as before; when it returns, the row holds
  the two texts that were bound.
\<close>

theorem update_card_frame:
  "update_card s card_id front back = (s', r) \<Longrightarrow>
     decks s' = decks s \<and> length (cards s') = length (cards s) \<and>
     (r \<noteq> Inr () \<longrightarrow> s' = s) \<and>
     (\<forall>i < length (cards s).
        let c = cards s ! i; c' = cards s' ! i in
        c_id c' = c_id c \<and> c_deck_id c' = c_deck_id c \<and>
        c_correct_count c' = c_correct_count c \<and> c_seen_count c' = c_seen_count c \<and>
        c_created_at c' = c_created_at c \<and>
        (c_id c \<noteq> card_id \<longrightarrow> c' = c) \<and>
        (c_id c = card_id \<and> r = Inr () \<longrightarrow>
           bind_text front = Inr (c_front c') \<and> bind_text back = Inr (c_back c')))"
  by (auto simp: update_card_def Let_def split: sum.splits)

theorem update_card_frame_witness:
  "update_card demo 1 (PStr ''buenos'') (PStr ''good'') =
     (demo\<lparr>cards := [(cards demo ! 0)\<lparr>c_front := Some ''buenos'', c_back := Some ''good''\<rparr>,
                      cards demo ! 1]\<rparr>, Inr ()) \<and>
   c_seen_count (cards (fst (update_card demo 1 (PStr ''buenos'') (PStr ''good''))) ! 0) =
     c_seen_count (cards demo ! 0)"
  using update_card_frame [of demo 1 "PStr ''buenos''" "PStr ''good''"
      "fst (update_card demo 1 (PStr ''buenos'') (PStr ''good''))"
      "snd (update_card demo 1 (PStr ''buenos'') (PStr ''good''))"]
  by (simp add: demo_def update_card_def)

subsection \<open>Deleting a deck\<close>

text \<open>
  Claim C3. \<^verbatim>\<open>delete_deck\<close> removes the cards of the deck and the deck in one step (the
  method has one commit and no error result, so the store passes from the state before to the
  state with both deletions done): afterwards the deck lists no card, no stored card carries
  its id, its row is gone, and the listing of every other deck is what it was.
\<close>

theorem delete_deck_cascade:
  "cards (delete_deck s d) = filter (\<lambda>c. c_deck_id c \<noteq> d) (cards s) \<and>
   decks (delete_deck s d) = filter (\<lambda>r. d_id r \<noteq> d) (decks s) \<and>
   cards_in_deck (delete_deck s d) d = [] \<and>
   d \<notin> set (map d_id (decks (delete_deck s d))) \<and>
   (\<forall>c \<in> set (cards (delete_deck s d)). c_deck_id c \<noteq> d) \<and>
   (\<forall>d'. d' \<noteq> d \<longrightarrow> cards_in_deck (delete_deck s d) d' = cards_in_deck s d')"
proof -
  have "\<And>d'. d' \<noteq> d \<Longrightarrow>
      filter (\<lambda>c. c_deck_id c = d') (filter (\<lambda>c. c_deck_id c \<noteq> d) (cards s)) =
      filter (\<lambda>c. c_deck_id c = d') (cards s)"
    by (rule filter_other)
  moreover have "filter (\<lambda>c. c_deck_id c = d) (filter (\<lambda>c. c_deck_id c \<noteq> d) (cards s)) = []"
    by (simp add: filter_empty_conv)
  ultimately show ?thesis
    by (auto simp: delete_deck_def cards_in_deck_def Let_def)
qed

theorem delete_deck_cascade_witness:
  "cards_in_deck demo 1 \<noteq> [] \<and> cards_in_deck (delete_deck demo 1) 1 = [] \<and>
   delete_deck demo 1 = init_db \<and> (2::int) \<noteq> 1 \<and>
   cards_in_deck (delete_deck demo 1) 2 = cards_in_deck demo 2"
  using delete_deck_cascade [of demo 1]
  by (simp add: demo_def delete_deck_def init_db_def cards_in_deck_def)

subsection \<open>The study window\<close>

text \<open>
  Claim C2. With a current entry \<open>e\<close>, \<^verbatim>\<open>mark\<close> first records the result for \<open>e\<close>: in
  the store it returns, each card with the id of \<open>e\<close> has its \<^verbatim>\<open>seen_count\<close> raised by 1
  and its \<^verbatim>\<open>correct_count\<close> raised by 1 exactly on \<^verbatim>\<open>True\<close>, and all else is as before
  (it is the store of \<^verbatim>\<open>record_result\<close>). On \<^verbatim>\<open>True\<close> the queue is left as it is (\<open>e\<close>
  is not put back), on \<^verbatim>\<open>False\<close> \<open>e\<close> is appended at its end. Then the head of that queue
  becomes the current entry, its front is on the label and the flip flag is off; if that
  queue is empty the window is destroyed (the session is over). A window opened on \<open>n\<close>
  entries and answered \<^verbatim>\<open>True\<close> throughout is not over after fewer than \<open>n\<close> calls of
  \<^verbatim>\<open>mark\<close> (the \<open>k\<close>-th entry is then current) and is over, with an empty queue, after
  \<open>n\<close> calls.
\<close>

theorem mark_advances:
  "(current w = Some e \<longrightarrow>
      snd (mark (w, s) correct) = record_result s (e_id e) correct \<and>
      decks (snd (mark (w, s) correct)) = decks s \<and>
      length (cards (snd (mark (w, s) correct))) = length (cards s) \<and>
      (\<forall>i < length (cards s).
         (c_id (cards s ! i) = e_id e \<longrightarrow>
            cards (snd (mark (w, s) correct)) ! i =
              (cards s ! i)\<lparr>c_seen_count := c_seen_count (cards s ! i) + 1,
                c_correct_count := c_correct_count (cards s ! i) + (if correct then 1 else 0)\<rparr>) \<and>
         (c_id (cards s ! i) \<noteq> e_id e \<longrightarrow>
            cards (snd (mark (w, s) correct)) ! i = cards s ! i)) \<and>
      (case (if correct then queue w else queue w @ [e]) of
         [] \<Rightarrow> destroyed (fst (mark (w, s) correct)) \<and> queue (fst (mark (w, s) correct)) = []
       | x # rest \<Rightarrow>
           current (fst (mark (w, s) correct)) = Some x \<and>
           queue (fst (mark (w, s) correct)) = rest \<and>
           \<not> back_shown (fst (mark (w, s) correct)) \<and>
           front_lbl (fst (mark (w, s) correct)) = or_empty (e_front x) \<and>
           destroyed (fst (mark (w, s) correct)) = destroyed w)) \<and>
   (k < length entries \<longrightarrow>
      \<not> destroyed (fst (marks k True (study_window_init entries, st))) \<and>
      current (fst (marks k True (study_window_init entries, st))) = Some (entries ! k)) \<and>
   destroyed (fst (marks (length entries) True (study_window_init entries, st))) \<and>
   queue (fst (marks (length entries) True (study_window_init entries, st))) = []"
proof -
  have A: "current w = Some e \<longrightarrow>
      (case (if correct then queue w else queue w @ [e]) of
         [] \<Rightarrow> destroyed (fst (mark (w, s) correct)) \<and> queue (fst (mark (w, s) correct)) = []
       | x # rest \<Rightarrow>
           current (fst (mark (w, s) correct)) = Some x \<and>
           queue (fst (mark (w, s) correct)) = rest \<and>
           \<not> back_shown (fst (mark (w, s) correct)) \<and>
           front_lbl (fst (mark (w, s) correct)) = or_empty (e_front x) \<and>
           destroyed (fst (mark (w, s) correct)) = destroyed w)"
    by (cases "queue w") (auto simp: mark_def next_card_def Let_def split: list.splits)
  have S: "current w = Some e \<longrightarrow>
      snd (mark (w, s) correct) = record_result s (e_id e) correct \<and>
      decks (snd (mark (w, s) correct)) = decks s \<and>
      length (cards (snd (mark (w, s) correct))) = length (cards s) \<and>
      (\<forall>i < length (cards s).
         (c_id (cards s ! i) = e_id e \<longrightarrow>
            cards (snd (mark (w, s) correct)) ! i =
              (cards s ! i)\<lparr>c_seen_count := c_seen_count (cards s ! i) + 1,
                c_correct_count := c_correct_count (cards s ! i) + (if correct then 1 else 0)\<rparr>) \<and>
         (c_id (cards s ! i) \<noteq> e_id e \<longrightarrow>
            cards (snd (mark (w, s) correct)) ! i = cards s ! i))"
  proof
    assume c: "current w = Some e"
    show "snd (mark (w, s) correct) = record_result s (e_id e) correct \<and>
      decks (snd (mark (w, s) correct)) = decks s \<and>
      length (cards (snd (mark (w, s) correct))) = length (cards s) \<and>
      (\<forall>i < length (cards s).
         (c_id (cards s ! i) = e_id e \<longrightarrow>
            cards (snd (mark (w, s) correct)) ! i =
              (cards s ! i)\<lparr>c_seen_count := c_seen_count (cards s ! i) + 1,
                c_correct_count := c_correct_count (cards s ! i) + (if correct then 1 else 0)\<rparr>) \<and>
         (c_id (cards s ! i) \<noteq> e_id e \<longrightarrow>
            cards (snd (mark (w, s) correct)) ! i = cards s ! i))"
      unfolding mark_store [OF c] using record_result_rows [of s "e_id e" correct] by blast
  qed
  have B: "(k < length entries \<longrightarrow>
      \<not> destroyed (fst (marks k True (study_window_init entries, st))) \<and>
      current (fst (marks k True (study_window_init entries, st))) = Some (entries ! k)) \<and>
   destroyed (fst (marks (length entries) True (study_window_init entries, st))) \<and>
   queue (fst (marks (length entries) True (study_window_init entries, st))) = []"
  proof (cases entries)
    case Nil
    then show ?thesis by (simp add: study_window_init_def next_card_def)
  next
    case (Cons e0 q)
    define w0 where "w0 = study_window_init entries"
    have w0: "current w0 = Some e0" "\<not> destroyed w0" "queue w0 = q"
      by (simp_all add: w0_def Cons study_window_init_def next_card_def)
    have "k < length entries \<longrightarrow>
        \<not> destroyed (fst (marks k True (w0, st))) \<and>
        current (fst (marks k True (w0, st))) = Some (entries ! k)"
      using marks_true_run [OF w0(1,2), of k st] w0(3) Cons by simp
    moreover have "destroyed (fst (marks (length entries) True (w0, st))) \<and>
        queue (fst (marks (length entries) True (w0, st))) = []"
      using marks_true_end [OF w0(1,2), of st] w0(3) Cons by simp
    ultimately show ?thesis by (simp add: w0_def)
  qed
  from A S B show ?thesis by blast
qed

theorem mark_advances_witness:
  "current (study_window_init demo_queue) = Some (demo_queue ! 0) \<and>
   (1::nat) < length demo_queue \<and> (0::nat) < length (cards demo) \<and>
   c_id (cards demo ! 0) = e_id (demo_queue ! 0) \<and>
   c_seen_count (cards demo ! 0) = 0 \<and> c_correct_count (cards demo ! 0) = 0 \<and>
   c_seen_count (cards (snd (mark (study_window_init demo_queue, demo) False)) ! 0) = 1 \<and>
   c_correct_count (cards (snd (mark (study_window_init demo_queue, demo) False)) ! 0) = 0 \<and>
   cards (snd (mark (study_window_init demo_queue, demo) False)) ! 1 = cards demo ! 1 \<and>
   front_lbl (fst (mark (study_window_init demo_queue, demo) False)) = ''adios'' \<and>
   queue (fst (mark (study_window_init demo_queue, demo) False)) = [demo_queue ! 0] \<and>
   \<not> destroyed (fst (marks 1 True (study_window_init demo_queue, demo))) \<and>
   destroyed (fst (marks 2 True (study_window_init demo_queue, demo))) \<and>
   cards_in_deck (snd (mark (mark (mark (study_window_init demo_queue, demo) False) True) True)) 1 =
     [(1, Some ''hola'', Some ''hello'', 1, 2), (2, Some ''adios'', Some ''bye'', 1, 1)] \<and>
   destroyed (fst (mark (mark (mark (study_window_init demo_queue, demo) False) True) True))"
  using mark_advances [of "study_window_init demo_queue" "demo_queue ! 0" demo False 1 demo_queue demo]
  by (simp add: demo_queue_def demo_def study_window_init_def next_card_def or_empty_def mark_def
      Let_def numeral_2_eq_2 record_result_def cards_in_deck_def card_tuple_def)

subsection \<open>The order of an export\<close>

text \<open>
  Claim C6. For a deck that exists, \<^verbatim>\<open>export_deck_json\<close> writes the cards of the deck
  in the order in which \<^verbatim>\<open>cards_in_deck\<close> lists them: the file holds as many objects as
  the listing has tuples, the object at each position carries the front, back and both
  counters of the tuple at that position (and the \<^verbatim>\<open>created_at\<close> of the stored card with
  the tuple's id), and the ids of the listing ascend. The tables are in rowid order, which
  every method keeps (lemmas \<open>rowid_ordered_\<dots>\<close>).
\<close>

theorem export_order:
  "rowid_ordered s \<Longrightarrow> d \<in> set (map d_id (decks s)) \<Longrightarrow>
     (\<exists>nm objs.
        export_deck_json s now d path fs =
          Inr (fs(path := Document (PDict [(''name'', PStr nm), (''exported_at'', PStr now),
                                           (''cards'', PList objs)]))) \<and>
        (\<exists>row \<in> set (decks s). d_id row = d \<and> d_name row = nm) \<and>
        length objs = length (cards_in_deck s d) \<and>
        (\<forall>i < length objs.
           case cards_in_deck s d ! i of
             (cid, f, b, cc, sc) \<Rightarrow>
               (\<exists>r \<in> set (cards s). c_id r = cid \<and> c_deck_id r = d \<and>
                  objs ! i =
                    PDict [(''front'', case f of None \<Rightarrow> PNone | Some x \<Rightarrow> PStr x),
                           (''back'', case b of None \<Rightarrow> PNone | Some x \<Rightarrow> PStr x),
                           (''correct_count'', PInt cc), (''seen_count'', PInt sc),
                           (''created_at'', PStr (c_created_at r))]))) \<and>
     sorted_wrt (<) (map fst (cards_in_deck s d))"
proof -
  assume ord: "rowid_ordered s" and d: "d \<in> set (map d_id (decks s))"
  define rows where "rows = filter (\<lambda>c. c_deck_id c = d) (cards s)"
  from find_key [OF d] obtain row where row: "find (\<lambda>r. d_id r = d) (decks s) = Some row"
    by blast
  then have row_in: "row \<in> set (decks s)" "d_id row = d"
    by (auto simp: find_Some_iff)
  have exp: "export_deck_json s now d path fs =
      Inr (fs(path := Document (PDict [(''name'', PStr (d_name row)), (''exported_at'', PStr now),
                                       (''cards'', PList (map card_dict rows))])))"
    by (simp add: export_deck_json_def export_payload_def row rows_def)
  from ord have c: "sorted_wrt (<) (map c_id (cards s))"
    by (simp add: rowid_ordered_def)
  then have listing: "cards_in_deck s d = map card_tuple rows"
    by (simp add: cards_in_deck_def sort_key_filter_ordered rows_def)
  have each: "case cards_in_deck s d ! i of
       (cid, f, b, cc, sc) \<Rightarrow>
         (\<exists>r \<in> set (cards s). c_id r = cid \<and> c_deck_id r = d \<and>
            map card_dict rows ! i =
              PDict [(''front'', case f of None \<Rightarrow> PNone | Some x \<Rightarrow> PStr x),
                     (''back'', case b of None \<Rightarrow> PNone | Some x \<Rightarrow> PStr x),
                     (''correct_count'', PInt cc), (''seen_count'', PInt sc),
                     (''created_at'', PStr (c_created_at r))])"
    if i: "i < length (map card_dict rows)" for i
  proof -
    from i have "rows ! i \<in> set rows" by simp
    then have "rows ! i \<in> set (cards s)" "c_deck_id (rows ! i) = d"
      by (simp_all add: rows_def)
    with i show ?thesis
      by (auto simp: listing card_tuple_def card_dict_def py_text_def intro!: bexI [of _ "rows ! i"])
  qed
  have "map fst (cards_in_deck s d) = map c_id rows"
    by (simp add: listing card_tuple_def)
  moreover from c have "sorted_wrt (<) (map c_id rows)"
    unfolding rows_def by (rule sorted_wrt_map_filter)
  ultimately have asc: "sorted_wrt (<) (map fst (cards_in_deck s d))"
    by simp
  have len: "length (map card_dict rows) = length (cards_in_deck s d)"
    by (simp add: listing)
  from exp row_in len each asc show ?thesis
    by (intro conjI exI [of _ "d_name row"] exI [of _ "map card_dict rows"]) blast+
qed

theorem export_order_witness:
  "rowid_ordered demo \<and> (1::int) \<in> set (map d_id (decks demo)) \<and>
   cards_in_deck demo 1 =
     [(1, Some ''hola'', Some ''hello'', 0, 0), (2, Some ''adios'', Some ''bye'', 0, 0)] \<and>
   export_deck_json demo ''2024-02-01T00:00:00+00:00'' 1 ''spanish.json''
       (one_file ''spanish.json'' Unreadable) =
     Inr ((one_file ''spanish.json'' Unreadable)(''spanish.json'' :=
       Document (PDict [(''name'', PStr ''Spanish''),
         (''exported_at'', PStr ''2024-02-01T00:00:00+00:00''),
         (''cards'', PList [
            PDict [(''front'', PStr ''hola''), (''back'', PStr ''hello''),
                   (''correct_count'', PInt 0), (''seen_count'', PInt 0),
                   (''created_at'', PStr ''2024-01-01T00:00:01+00:00'')],
            PDict [(''front'', PStr ''adios''), (''back'', PStr ''bye''),
                   (''correct_count'', PInt 0), (''seen_count'', PInt 0),
                   (''created_at'', PStr ''2024-01-01T00:00:02+00:00'')]])]))) \<and>
   sorted_wrt (<) (map fst (cards_in_deck demo 1))"
proof -
  have h1: "rowid_ordered demo"
    by (simp add: demo_def rowid_ordered_def)
  have h2: "(1::int) \<in> set (map d_id (decks demo))"
    by (simp add: demo_def)
  have e1: "cards_in_deck demo 1 =
     [(1, Some ''hola'', Some ''hello'', 0, 0), (2, Some ''adios'', Some ''bye'', 0, 0)]"
    by (simp add: demo_def cards_in_deck_def card_tuple_def)
  have e2: "export_deck_json demo ''2024-02-01T00:00:00+00:00'' 1 ''spanish.json''
       (one_file ''spanish.json'' Unreadable) =
     Inr ((one_file ''spanish.json'' Unreadable)(''spanish.json'' :=
       Document (PDict [(''name'', PStr ''Spanish''),
         (''exported_at'', PStr ''2024-02-01T00:00:00+00:00''),
         (''cards'', PList [
            PDict [(''front'', PStr ''hola''), (''back'', PStr ''hello''),
                   (''correct_count'', PInt 0), (''seen_count'', PInt 0),
                   (''created_at'', PStr ''2024-01-01T00:00:01+00:00'')],
            PDict [(''front'', PStr ''adios''), (''back'', PStr ''bye''),
                   (''correct_count'', PInt 0), (''seen_count'', PInt 0),
                   (''created_at'', PStr ''2024-01-01T00:00:02+00:00'')]])])))"
    by (simp add: demo_def export_deck_json_def export_payload_def card_dict_def py_text_def)
  from export_order [OF h1 h2, of "''2024-02-01T00:00:00+00:00''" "''spanish.json''"
      "one_file ''spanish.json'' Unreadable"]
  have "sorted_wrt (<) (map fst (cards_in_deck demo 1))" by blast
  with h1 h2 e1 e2 show ?thesis by blast
qed

subsection \<open>Foreign keys\<close>

text \<open>
  Claim C4. The schema declares \<^verbatim>\<open>FOREIGN KEY(deck_id) REFERENCES decks(id)\<close>, but the
  connection never switches the enforcement on: in the empty store, which has no orphan,
  \<^verbatim>\<open>add_card\<close> for deck 7 returns the new id and leaves a card whose deck does not exist.
\<close>

theorem add_card_orphan:
  "no_orphans init_db \<and>
   add_card init_db ''2024-03-01T00:00:00+00:00'' 7 (PStr ''a'') (PStr ''b'') =
     (\<lparr>decks = [],
       cards = [\<lparr>c_id = 1, c_deck_id = 7, c_front = Some ''a'', c_back = Some ''b'',
                 c_correct_count = 0, c_seen_count = 0,
                 c_created_at = ''2024-03-01T00:00:00+00:00''\<rparr>]\<rparr>, Inr 1) \<and>
   \<not> no_orphans (fst (add_card init_db ''2024-03-01T00:00:00+00:00'' 7 (PStr ''a'') (PStr ''b'')))"
  by (simp add: no_orphans_def init_db_def add_card_def next_rowid_def)

subsection \<open>Sources that an import rejects\<close>




subsection \<open>The name of an imported deck\<close>

text \<open>
  Claim C8. For a payload that is an object: when \<^verbatim>\<open>name\<close> is missing or the empty
  string, the import inserts one deck named \<^verbatim>\<open>Deck \<close> followed by the reading of the
  clock taken for it (so the name is not empty), whatever \<^verbatim>\<open>cards\<close> holds; when
  \<^verbatim>\<open>name\<close> is a string that is not empty, the deck inserted carries that string. In both
  cases the import returns the new id without error when \<^verbatim>\<open>cards\<close> has the shape of the
  wire format.
\<close>

theorem import_default_name:
  "fs path = Document (PDict kvs) \<Longrightarrow>
     (map_of kvs ''name'' = None \<or> map_of kvs ''name'' = Some (PStr []) \<longrightarrow>
        decks (fst (import_deck_json s clk fs path)) =
          decks s @ [\<lparr>d_id = next_rowid (map d_id (decks s)), d_name = ''Deck '' @ clk 0,
                      d_created_at = clk 1\<rparr>] \<and>
        ''Deck '' @ clk 0 \<noteq> [] \<and>
        (wire_cards kvs \<longrightarrow>
           snd (import_deck_json s clk fs path) = Inr (next_rowid (map d_id (decks s))))) \<and>
     (\<forall>nm. map_of kvs ''name'' = Some (PStr nm) \<and> nm \<noteq> [] \<longrightarrow>
        decks (fst (import_deck_json s clk fs path)) =
          decks s @ [\<lparr>d_id = next_rowid (map d_id (decks s)), d_name = nm,
                      d_created_at = clk 0\<rparr>] \<and>
        (wire_cards kvs \<longrightarrow>
           snd (import_deck_json s clk fs path) = Inr (next_rowid (map d_id (decks s)))))"
proof -
  assume doc: "fs path = Document (PDict kvs)"
  define v where "v = (case map_of kvs ''name'' of None \<Rightarrow> PNone | Some x \<Rightarrow> x)"
  have v: "(case map_of kvs ''name'' of None \<Rightarrow> PNone | Some x \<Rightarrow> x) = v"
    by (simp add: v_def)
  have ok: "snd (import_deck_json s clk fs path) = Inr (next_rowid (map d_id (decks s)))"
    if w: "wire_cards kvs"
      and nm: "bind_text (if truthy v then v else PStr (''Deck '' @ clk 0)) = Inr (Some nm)"
    for nm
  proof -
    from w obtain cs where
      "(case map_of kvs ''cards'' of None \<Rightarrow> PList [] | Some x \<Rightarrow> x) = PList cs"
      "list_all (\<lambda>i. card_texts i \<noteq> None) cs"
      by (rule wire_cards_items)
    from import_wire [where fs = fs and path = path and clk = clk, OF doc v nm this] show ?thesis by simp
  qed
  have absent: ?thesis if "\<not> truthy v" "\<forall>nm. map_of kvs ''name'' \<noteq> Some (PStr nm) \<or> nm = []"
    using that import_decks [where fs = fs and path = path and nm = "''Deck '' @ clk 0"
        and clk = clk and s = s, OF doc v]
      ok [of "''Deck '' @ clk 0"]
    by auto
  show ?thesis
  proof (cases "map_of kvs ''name'' = None \<or> map_of kvs ''name'' = Some (PStr [])")
    case True
    then have "\<not> truthy v" by (auto simp: v_def)
    moreover from True have "\<forall>nm. map_of kvs ''name'' \<noteq> Some (PStr nm) \<or> nm = []" by auto
    ultimately show ?thesis by (rule absent)
  next
    case False
    show ?thesis
    proof (cases "\<exists>nm. map_of kvs ''name'' = Some (PStr nm)")
      case True
      then obtain nm where nm: "map_of kvs ''name'' = Some (PStr nm)" by blast
      with False have ne: "nm \<noteq> []" by auto
      from nm ne have t: "truthy v" and b: "bind_text (if truthy v then v else PStr (''Deck '' @ clk 0)) = Inr (Some nm)"
        by (simp_all add: v_def)
      from import_decks [where fs = fs and path = path and s = s and clk = clk, OF doc v b] ok [OF _ b]
        t nm ne False show ?thesis
        by auto
    next
      case False
      with \<open>\<not> (map_of kvs ''name'' = None \<or> map_of kvs ''name'' = Some (PStr []))\<close>
      show ?thesis by auto
    qed
  qed
qed

theorem import_default_name_witness:
  "one_file ''deck.json''
       (Document (PDict [(''cards'', PList [PDict [(''front'', PStr ''a''), (''back'', PStr ''b'')]])]))
     ''deck.json'' =
     Document (PDict [(''cards'', PList [PDict [(''front'', PStr ''a''), (''back'', PStr ''b'')]])]) \<and>
   map_of [(''cards'', PList [PDict [(''front'', PStr ''a''), (''back'', PStr ''b'')]])] ''name'' = None \<and>
   wire_cards [(''cards'', PList [PDict [(''front'', PStr ''a''), (''back'', PStr ''b'')]])] \<and>
   decks (fst (import_deck_json init_db demo_clock
       (one_file ''deck.json''
          (Document (PDict [(''cards'', PList [PDict [(''front'', PStr ''a''), (''back'', PStr ''b'')]])])))
       ''deck.json'')) =
     [\<lparr>d_id = 1, d_name = ''Deck 2024-03-01T00:00:00+00:00'',
       d_created_at = ''2024-03-01T00:00:01+00:00''\<rparr>] \<and>
   snd (import_deck_json init_db demo_clock
       (one_file ''deck.json''
          (Document (PDict [(''cards'', PList [PDict [(''front'', PStr ''a''), (''back'', PStr ''b'')]])])))
       ''deck.json'') = Inr 1"
  using import_default_name [of
      "one_file ''deck.json''
        (Document (PDict [(''cards'', PList [PDict [(''front'', PStr ''a''), (''back'', PStr ''b'')]])]))"
      "''deck.json''"
      "[(''cards'', PList [PDict [(''front'', PStr ''a''), (''back'', PStr ''b'')]])]"
      init_db demo_clock]
  by (simp add: one_file_def wire_cards_def init_db_def demo_clock_def next_rowid_def)

subsection \<open>Export followed by import\<close>

text \<open>
  Claim C5 fails on the store \<open>orphaned\<close>, which \<^verbatim>\<open>add_deck('A')\<close>,
  \<^verbatim>\<open>add_card(1, 'a', 'b')\<close> and \<^verbatim>\<open>add_card(2, 'x', 'y')\<close> leave behind (the last call
  succeeds because the foreign key is not enforced, see C4). Deck 1 lists one card. Its
  export is written, and importing that file returns the new deck 2, which lists two cards:
  the orphan \<^verbatim>\<open>('x', 'y')\<close> and then the imported \<^verbatim>\<open>('a', 'b')\<close>.
\<close>

theorem roundtrip_adopts_orphan:
  "orphaned =
     \<lparr>decks = [\<lparr>d_id = 1, d_name = ''A'', d_created_at = ''2024-01-01T00:00:00+00:00''\<rparr>],
      cards = [\<lparr>c_id = 1, c_deck_id = 1, c_front = Some ''a'', c_back = Some ''b'',
                c_correct_count = 0, c_seen_count = 0,
                c_created_at = ''2024-01-01T00:00:01+00:00''\<rparr>,
               \<lparr>c_id = 2, c_deck_id = 2, c_front = Some ''x'', c_back = Some ''y'',
                c_correct_count = 0, c_seen_count = 0,
                c_created_at = ''2024-01-01T00:00:02+00:00''\<rparr>]\<rparr> \<and>
   cards_in_deck orphaned 1 = [(1, Some ''a'', Some ''b'', 0, 0)] \<and>
   export_deck_json orphaned ''2024-02-01T00:00:00+00:00'' 1 ''a.json''
       (one_file ''a.json'' Unreadable) =
     Inr (one_file ''a.json''
       (Document (PDict [(''name'', PStr ''A''),
          (''exported_at'', PStr ''2024-02-01T00:00:00+00:00''),
          (''cards'', PList [
             PDict [(''front'', PStr ''a''), (''back'', PStr ''b''),
                    (''correct_count'', PInt 0), (''seen_count'', PInt 0),
                    (''created_at'', PStr ''2024-01-01T00:00:01+00:00'')]])]))) \<and>
   snd (import_deck_json orphaned demo_clock
     (one_file ''a.json''
       (Document (PDict [(''name'', PStr ''A''),
          (''exported_at'', PStr ''2024-02-01T00:00:00+00:00''),
          (''cards'', PList [
             PDict [(''front'', PStr ''a''), (''back'', PStr ''b''),
                    (''correct_count'', PInt 0), (''seen_count'', PInt 0),
                    (''created_at'', PStr ''2024-01-01T00:00:01+00:00'')]])])))
     ''a.json'') = Inr 2 \<and>
   cards_in_deck (fst (import_deck_json orphaned demo_clock
     (one_file ''a.json''
       (Document (PDict [(''name'', PStr ''A''),
          (''exported_at'', PStr ''2024-02-01T00:00:00+00:00''),
          (''cards'', PList [
             PDict [(''front'', PStr ''a''), (''back'', PStr ''b''),
                    (''correct_count'', PInt 0), (''seen_count'', PInt 0),
                    (''created_at'', PStr ''2024-01-01T00:00:01+00:00'')]])])))
     ''a.json'')) 2 =
     [(2, Some ''x'', Some ''y'', 0, 0), (3, Some ''a'', Some ''b'', 0, 0)]"
proof -
  have o: "orphaned =
     \<lparr>decks = [\<lparr>d_id = 1, d_name = ''A'', d_created_at = ''2024-01-01T00:00:00+00:00''\<rparr>],
      cards = [\<lparr>c_id = 1, c_deck_id = 1, c_front = Some ''a'', c_back = Some ''b'',
                c_correct_count = 0, c_seen_count = 0,
                c_created_at = ''2024-01-01T00:00:01+00:00''\<rparr>,
               \<lparr>c_id = 2, c_deck_id = 2, c_front = Some ''x'', c_back = Some ''y'',
                c_correct_count = 0, c_seen_count = 0,
                c_created_at = ''2024-01-01T00:00:02+00:00''\<rparr>]\<rparr>"
    by (simp add: orphaned_def init_db_def add_deck_def add_card_def next_rowid_def)
  show ?thesis
    unfolding o
    by (simp add: cards_in_deck_def card_tuple_def export_deck_json_def export_payload_def
        card_dict_def py_text_def one_file_def import_deck_json_def add_deck_def add_card_def
        next_rowid_def demo_clock_def)
qed

text \<open>
  Where the store that imports has no orphan card, the round trip is as C5 says. Let deck
  \<open>d\<close> exist in a store \<open>s\<close> whose tables are in rowid order, and let the file that
  \<^verbatim>\<open>export_deck_json\<close> writes for \<open>d\<close> be imported into a store \<open>s2\<close> without
  orphan cards. The export succeeds, the import returns a deck id that \<open>s2\<close> did not have and
  appends one deck row and card rows, leaving the rows of \<open>s2\<close> in place. The new deck lists as
  many cards as \<open>d\<close>, with the same (front, back) pairs in the same order. Each card of the
  new deck has both counters at 0, whatever the file says, and as \<^verbatim>\<open>created_at\<close> a reading
  of the clock taken by the import; so it is newer than the export's \<^verbatim>\<open>exported_at\<close> when
  the import's readings are.
\<close>

theorem export_import_roundtrip:
  assumes "d \<in> set (map d_id (decks s))" and "rowid_ordered s" and "no_orphans s2"
  shows "\<exists>fs' s3 new_id.
    export_deck_json s t0 d path fs = Inr fs' \<and>
    import_deck_json s2 clk fs' path = (s3, Inr new_id) \<and>
    new_id \<notin> set (map d_id (decks s2)) \<and>
    (\<exists>row. decks s3 = decks s2 @ [row] \<and> d_id row = new_id) \<and>
    (\<exists>new. cards s3 = cards s2 @ new) \<and>
    length (cards_in_deck s3 new_id) = length (cards_in_deck s d) \<and>
    map (\<lambda>(i, f, b, cc, sc). (f, b)) (cards_in_deck s3 new_id) =
      map (\<lambda>(i, f, b, cc, sc). (f, b)) (cards_in_deck s d) \<and>
    (\<forall>c \<in> set (cards s3). c_deck_id c = new_id \<longrightarrow>
       c_correct_count c = 0 \<and> c_seen_count c = 0 \<and> (\<exists>k. c_created_at c = clk k) \<and>
       ((\<forall>k. t0 < clk k) \<longrightarrow> t0 < c_created_at c))"
proof -
  from find_key [OF assms(1)] obtain row where row: "find (\<lambda>r. d_id r = d) (decks s) = Some row"
    by blast
  define rows where "rows = filter (\<lambda>c. c_deck_id c = d) (cards s)"
  define kvs where "kvs = [(''name'', PStr (d_name row)), (''exported_at'', PStr t0),
    (''cards'', PList (map card_dict rows))]"
  define fs' where "fs' = fs(path := Document (PDict kvs))"
  define D where "D = next_rowid (map d_id (decks s2))"
  define v where "v = PStr (d_name row)"
  define nm where "nm = (if d_name row \<noteq> [] then d_name row else ''Deck '' @ clk 0)"
  define fbs where "fbs = map (\<lambda>r. (c_front r, c_back r)) rows"
  define new where "new = imported_rows (next_rowid (map c_id (cards s2))) clk
    (Suc (if truthy v then 0 else 1)) D fbs"
  define s3 where "s3 = s2\<lparr>decks := decks s2 @
      [\<lparr>d_id = D, d_name = nm, d_created_at = clk (if truthy v then 0 else 1)\<rparr>],
    cards := cards s2 @ new\<rparr>"
  have exp: "export_deck_json s t0 d path fs = Inr fs'"
    by (simp add: export_deck_json_def row export_payload_def fs'_def kvs_def rows_def)
  have doc: "fs' path = Document (PDict kvs)"
    by (simp add: fs'_def)
  have 1: "(case map_of kvs ''name'' of None \<Rightarrow> PNone | Some x \<Rightarrow> x) = v"
    by (simp add: kvs_def v_def)
  have 2: "bind_text (if truthy v then v else PStr (''Deck '' @ clk 0)) = Inr (Some nm)"
    by (simp add: v_def nm_def)
  have 3: "(case map_of kvs ''cards'' of None \<Rightarrow> PList [] | Some x \<Rightarrow> x) = PList (map card_dict rows)"
    by (simp add: kvs_def)
  have 4: "list_all (\<lambda>i. card_texts i \<noteq> None) (map card_dict rows)"
    by (simp add: list_all_iff card_dict_texts)
  have imp: "import_deck_json s2 clk fs' path = (s3, Inr D)"
    using import_wire [where fs = fs' and path = path and clk = clk and s = s2, OF doc 1 2 3 4]
    by (simp add: s3_def new_def D_def fbs_def map_filter_card_dict)
  have fresh: "D \<notin> set (map d_id (decks s2))"
    unfolding D_def by (rule next_rowid_fresh)
  have old: "filter (\<lambda>c. c_deck_id c = D) (cards s2) = []"
    using assms(3) fresh by (rule no_orphans_filter)
  have "sorted (map c_id new)"
    unfolding new_def by (intro strict_sorted_imp_sorted imported_rows_sorted)
  then have listing: "cards_in_deck s3 D = map card_tuple new"
    by (simp add: cards_in_deck_def s3_def old new_def imported_rows_filter sort_key_id_if_sorted)
  from assms(2) have "sorted_wrt (<) (map c_id (cards s))"
    by (simp add: rowid_ordered_def)
  then have source: "cards_in_deck s d = map card_tuple rows"
    by (simp add: cards_in_deck_def rows_def sort_key_filter_ordered)
  have texts: "map (\<lambda>c. (c_front c, c_back c)) new = map (\<lambda>c. (c_front c, c_back c)) rows"
    by (simp add: new_def imported_rows_texts fbs_def)
  have len: "length (cards_in_deck s3 D) = length (cards_in_deck s d)"
    by (simp add: listing source new_def fbs_def)
  have pairs: "map (\<lambda>(i, f, b, cc, sc). (f, b)) (cards_in_deck s3 D) =
      map (\<lambda>(i, f, b, cc, sc). (f, b)) (cards_in_deck s d)"
    unfolding listing source card_tuple_texts by (rule texts)
  have fresh_rows: "c_correct_count c = 0 \<and> c_seen_count c = 0 \<and> (\<exists>k. c_created_at c = clk k) \<and>
       ((\<forall>k. t0 < clk k) \<longrightarrow> t0 < c_created_at c)"
    if "c \<in> set (cards s3)" "c_deck_id c = D" for c
  proof -
    from old that(2) have "c \<notin> set (cards s2)"
      by (auto simp: filter_empty_conv)
    with that(1) have "c \<in> set new" by (simp add: s3_def)
    from imported_rows_set [OF this [unfolded new_def]] show ?thesis by auto
  qed
  have "decks s3 = decks s2 @ [\<lparr>d_id = D, d_name = nm,
      d_created_at = clk (if truthy v then 0 else 1)\<rparr>]" "cards s3 = cards s2 @ new"
    by (simp_all add: s3_def)
  with exp imp fresh len pairs fresh_rows show ?thesis
    by (intro exI [of _ fs'] exI [of _ s3] exI [of _ D]) auto
qed

theorem export_import_roundtrip_witness:
  "(1::int) \<in> set (map d_id (decks studied)) \<and> rowid_ordered studied \<and> no_orphans studied \<and>
   (\<forall>k. ''2024-02-01T00:00:00+00:00'' < demo_clock k) \<and>
   cards_in_deck studied 1 =
     [(1, Some ''hola'', Some ''hello'', 0, 1), (2, Some ''adios'', Some ''bye'', 1, 1)] \<and>
   cards_in_deck (fst (import_deck_json studied demo_clock exported ''spanish.json'')) 2 =
     [(3, Some ''hola'', Some ''hello'', 0, 0), (4, Some ''adios'', Some ''bye'', 0, 0)] \<and>
   (\<exists>fs' s3 new_id.
      export_deck_json studied ''2024-02-01T00:00:00+00:00'' 1 ''spanish.json''
        (one_file ''spanish.json'' Unreadable) = Inr fs' \<and>
      import_deck_json studied demo_clock fs' ''spanish.json'' = (s3, Inr new_id) \<and>
      length (cards_in_deck s3 new_id) = length (cards_in_deck studied 1) \<and>
      (\<forall>c \<in> set (cards s3). c_deck_id c = new_id \<longrightarrow>
         c_correct_count c = 0 \<and> c_seen_count c = 0 \<and>
         ''2024-02-01T00:00:00+00:00'' < c_created_at c))"
proof -
  have h1: "(1::int) \<in> set (map d_id (decks studied))"
    by (simp add: studied_def demo_def record_result_def)
  have h2: "rowid_ordered studied"
    by (simp add: studied_def demo_def record_result_def rowid_ordered_def)
  have h3: "no_orphans studied"
    by (simp add: studied_def demo_def record_result_def no_orphans_def)
  have h4: "\<forall>k. ''2024-02-01T00:00:00+00:00'' < demo_clock k"
    by (simp add: demo_clock_def)
  have e1: "cards_in_deck studied 1 =
     [(1, Some ''hola'', Some ''hello'', 0, 1), (2, Some ''adios'', Some ''bye'', 1, 1)]"
    by (simp add: studied_def demo_def record_result_def cards_in_deck_def card_tuple_def)
  have e2: "cards_in_deck (fst (import_deck_json studied demo_clock exported ''spanish.json'')) 2 =
     [(3, Some ''hola'', Some ''hello'', 0, 0), (4, Some ''adios'', Some ''bye'', 0, 0)]"
    by (simp add: exported_def studied_def demo_def record_result_def cards_in_deck_def
        card_tuple_def export_deck_json_def export_payload_def card_dict_def py_text_def
        one_file_def import_deck_json_def add_deck_def add_card_def next_rowid_def demo_clock_def)
  from export_import_roundtrip [OF h1 h2 h3, of "''2024-02-01T00:00:00+00:00''" "''spanish.json''"
      "one_file ''spanish.json'' Unreadable" demo_clock] h4
  have "\<exists>fs' s3 new_id.
      export_deck_json studied ''2024-02-01T00:00:00+00:00'' 1 ''spanish.json''
        (one_file ''spanish.json'' Unreadable) = Inr fs' \<and>
      import_deck_json studied demo_clock fs' ''spanish.json'' = (s3, Inr new_id) \<and>
      length (cards_in_deck s3 new_id) = length (cards_in_deck studied 1) \<and>
      (\<forall>c \<in> set (cards s3). c_deck_id c = new_id \<longrightarrow>
         c_correct_count c = 0 \<and> c_seen_count c = 0 \<and>
         ''2024-02-01T00:00:00+00:00'' < c_created_at c)"
    by blast
  with h1 h2 h3 h4 e1 e2 show ?thesis by blast
qed

end
